theory Spec2Isabelle
  imports Complex_Main "HOL-Library.Sublist"
begin

section \<open>The world around \<open>pelican_ftp.py\<close>\<close>

text \<open>
  The script is I/O sequencing: it reads the local file system, talks to an FTP server
  through \<open>ftplib\<close> and writes log records. Every library call is a call to the
  environment, which either returns a value or raises. The handler in \<open>upload_file\<close>
  is selective (\<open>except ftplib.all_errors\<close>), so an exception carries the one fact the
  code asks about it: whether its class is in \<open>ftplib.all_errors\<close>
  (\<open>ftplib.Error\<close>, \<open>OSError\<close>, \<open>EOFError\<close>) or not. The string is \<open>str(e)\<close>.
\<close>

datatype exn = In_all_errors string | Not_in_all_errors string

datatype 'a outcome = Returned 'a | Raised exn

text \<open>
  How a run can end early: \<open>sys.exit(n)\<close>, or an exception that no handler catches
  (the interpreter prints the traceback and exits with status 1).
\<close>

datatype error = Sys_exit int | Uncaught exn

datatype level = DEBUG | INFO | WARNING | ERROR

text \<open>
  The three \<open>ftplib.FTP\<close> methods the script calls, with their arguments as the script
  builds them. \<open>Storbinary cmd path\<close> is \<open>storbinary(cmd, fp)\<close> with \<open>fp\<close> the
  local file \<open>path\<close> opened for reading.
\<close>

datatype ftp_call = Cwd string | Storbinary string string | Sendcmd string

type_synonym ftp_trace = "(ftp_call \<times> string outcome) list"

text \<open>
  Time stamps are the floats of \<open>os.path.getmtime\<close>; the script only compares them, and
  the order of finite floats is that of the reals they denote.

  \<^item> \<open>server_name\<close>: \<open>creds.SERVER\<close>;
  \<^item> \<open>utc_isoformat t\<close>: \<open>datetime.utcfromtimestamp(t).isoformat()\<close>;
  \<^item> \<open>connect\<close>: \<open>ftplib.FTP(host, user, passwd)\<close>, connecting and logging in;
  \<^item> \<open>glob p\<close>: \<open>glob.glob(p)\<close>;
  \<^item> \<open>getmtime p\<close>: \<open>os.path.getmtime(p)\<close> of a candidate;
  \<^item> \<open>open_rb p\<close>: \<open>open(p, "rb")\<close>;
  \<^item> \<open>respond tr c\<close>: what the FTP call \<open>c\<close> does after the calls \<open>tr\<close> of this session;
  \<^item> \<open>touch\<close>: \<open>Path(creds.LAST_UPDATE_FILENAME).touch()\<close>, returning the modification
    time it sets, the wall clock at that moment;
  \<^item> \<open>start_time\<close>: the wall clock when the run starts (the script never reads it).
\<close>

record env =
  server_name :: string
  utc_isoformat :: "real \<Rightarrow> string outcome"
  connect :: "unit outcome"
  glob :: "string \<Rightarrow> string list"
  getmtime :: "string \<Rightarrow> real outcome"
  open_rb :: "string \<Rightarrow> unit outcome"
  respond :: "ftp_trace \<Rightarrow> ftp_call \<Rightarrow> string outcome"
  touch :: "real outcome"
  start_time :: real

text \<open>
  What a run changes: the modification time of the sentinel marker
  \<open>creds.LAST_UPDATE_FILENAME\<close> (\<open>None\<close> when the file does not exist), the number of
  connections opened, the FTP calls made with what came of each, the log records, and the
  local paths \<open>upload_file\<close> was called with.
\<close>

record state =
  marker :: "real option"
  connects :: nat
  trace :: ftp_trace
  logged :: "(level \<times> string) list"
  attempted :: "string list"

section \<open>Library functions the script computes with\<close>

definition startswith :: "string \<Rightarrow> string \<Rightarrow> bool" where
  "startswith s p = (take (length p) s = p)"

text \<open>\<open>posixpath.join(a, *p)\<close>: an absolute component discards what came before it.\<close>

definition join_step :: "string \<Rightarrow> string \<Rightarrow> string" where
  "join_step path b =
     (if startswith b ''/'' then b
      else if path = [] \<or> last path = CHR ''/'' then path @ b
      else path @ ''/'' @ b)"

definition path_join :: "string \<Rightarrow> string list \<Rightarrow> string" where
  "path_join a p = foldl join_step a p"

text \<open>\<open>posixpath.basename(p)\<close>: what follows the last slash.\<close>

definition basename :: "string \<Rightarrow> string" where
  "basename p = rev (takeWhile (\<lambda>c. c \<noteq> CHR ''/'') (rev p))"

text \<open>Decimal formatting of an integer inside an f-string.\<close>

fun str_nat :: "nat \<Rightarrow> string" where
  "str_nat n =
     (if n < 10 then [''0123456789'' ! n]
      else str_nat (n div 10) @ [''0123456789'' ! (n mod 10)])"

declare str_nat.simps [simp del]

definition str_int :: "int \<Rightarrow> string" where
  "str_int i = (if i < 0 then ''-'' @ str_nat (nat (- i)) else str_nat (nat i))"

text \<open>A value between single quotes, as in \<open>f"'{filename}'"\<close>.\<close>

definition quoted :: "string \<Rightarrow> string" where
  "quoted s = CHR 0x27 # s @ [CHR 0x27]"

definition logmsg :: "level \<Rightarrow> string \<Rightarrow> state \<Rightarrow> state" where
  "logmsg lvl msg s = s\<lparr>logged := logged s @ [(lvl, msg)]\<rparr>"

definition ftp_do :: "env \<Rightarrow> ftp_call \<Rightarrow> state \<Rightarrow> string outcome \<times> state" where
  "ftp_do env c s =
     (let r = respond env (trace s) c in (r, s\<lparr>trace := trace s @ [(c, r)]\<rparr>))"

section \<open>The manifest\<close>

definition SUB_PATHS :: "(string \<times> string \<times> int) list" where
  "SUB_PATHS =
    [('''', ''*.html'', 664),
     (''author'', ''*.html'', 664),
     (''category'', ''*.html'', 664),
     (''feeds'', ''*.xml'', 664),
     (''images'', ''*.jpg'', 644),
     (''images'', ''*.jpeg'', 644),
     (''images'', ''*.png'', 644),
     (''images'', ''*.gif'', 644),
     (''pages'', ''*.html'', 664),
     (''tags'', ''*.html'', 664),
     (''theme/css'', ''*.css'', 644),
     (''theme/fonts'', ''*.otf'', 644),
     (''theme/fonts'', ''*.ttf'', 644),
     (''theme/images'', ''*.jpg'', 644),
     (''theme/images'', ''*.png'', 644),
     (''theme/js'', ''*.js'', 644)]"

section \<open>\<open>upload_file\<close>\<close>

text \<open>
  The body of the \<open>try\<close> (lines 49 to 59). The result is the exception that leaves the
  block, if any.
\<close>

definition upload_try ::
  "env \<Rightarrow> string \<Rightarrow> string \<Rightarrow> string \<Rightarrow> int \<Rightarrow> state \<Rightarrow> exn option \<times> state" where
  "upload_try env local_path filename remote_path permissions_int s =
     (case open_rb env local_path of
        Raised x \<Rightarrow> (Some x, s)
      | Returned _ \<Rightarrow>
         (case ftp_do env (Cwd remote_path) s of
            (Raised x, s1) \<Rightarrow> (Some x, s1)
          | (Returned _, s1) \<Rightarrow>
             (let s2 = logmsg DEBUG (''Changed directory to '' @ remote_path) s1 in
              case ftp_do env (Storbinary (''STOR '' @ filename) local_path) s2 of
                (Raised x, s3) \<Rightarrow> (Some x, s3)
              | (Returned res, s3) \<Rightarrow>
                 if \<not> startswith res ''226'' then
                   (None, logmsg ERROR res
                            (logmsg ERROR (''FAILURE uploading '' @ quoted filename) s3))
                 else
                   (let s4 = logmsg INFO
                               (''Uploaded '' @ quoted filename @ '' to '' @ remote_path) s3 in
                    case ftp_do env
                           (Sendcmd (''SITE CHMOD '' @ str_int permissions_int @ '' '' @ filename))
                           s4 of
                      (Raised x, s5) \<Rightarrow> (Some x, s5)
                    | (Returned res2, s5) \<Rightarrow>
                       (None, logmsg DEBUG (''Permissions change: '' @ quoted res2) s5)))))"

text \<open>Line 64, after the \<open>try\<close> statement and outside it.\<close>

definition cwd_base :: "env \<Rightarrow> string \<Rightarrow> state \<Rightarrow> error option \<times> state" where
  "cwd_base env remote_base s =
     (case ftp_do env (Cwd (path_join ''/'' [remote_base])) s of
        (Raised x, s') \<Rightarrow> (Some (Uncaught x), s')
      | (Returned _, s') \<Rightarrow> (None, s'))"

definition upload_file ::
  "env \<Rightarrow> string \<Rightarrow> string \<Rightarrow> string \<Rightarrow> string \<Rightarrow> int \<Rightarrow> state \<Rightarrow> error option \<times> state" where
  "upload_file env local_path filename remote_base sub_path permissions_int s =
     (let remote_path = path_join ''/'' [remote_base, sub_path];
          s0 = s\<lparr>attempted := attempted s @ [local_path]\<rparr> in
      case upload_try env local_path filename remote_path permissions_int s0 of
        (Some (Not_in_all_errors e), s1) \<Rightarrow> (Some (Uncaught (Not_in_all_errors e)), s1)
      | (Some (In_all_errors e), s1) \<Rightarrow>
          cwd_base env remote_base (logmsg ERROR (''FTP Error: '' @ quoted e) s1)
      | (None, s1) \<Rightarrow> cwd_base env remote_base s1)"

section \<open>\<open>check_and_upload_files\<close>\<close>

text \<open>
  The condition of line 81, \<open>force_update or os.path.getmtime(fs_obj) > last\<close>: with the
  flag set, the modification time is not read.
\<close>

definition qualifies :: "env \<Rightarrow> bool \<Rightarrow> real \<Rightarrow> string \<Rightarrow> bool outcome" where
  "qualifies env force_update last_update_date_time fs_obj =
     (if force_update then Returned True
      else case getmtime env fs_obj of
             Raised x \<Rightarrow> Raised x
           | Returned m \<Rightarrow> Returned (m > last_update_date_time))"

text \<open>The inner loop (lines 79 to 91) over the paths one pattern matched.\<close>

fun upload_matches ::
  "env \<Rightarrow> string \<Rightarrow> bool \<Rightarrow> real \<Rightarrow> string \<Rightarrow> int \<Rightarrow> string list \<Rightarrow> int \<Rightarrow> state
     \<Rightarrow> error option \<times> int \<times> state" where
  "upload_matches env remote_base force_update last_update sub_path perms_int [] count s =
     (None, count, s)"
| "upload_matches env remote_base force_update last_update sub_path perms_int (fs_obj # rest) count s =
     (case qualifies env force_update last_update fs_obj of
        Raised x \<Rightarrow> (Some (Uncaught x), count, s)
      | Returned False \<Rightarrow>
          upload_matches env remote_base force_update last_update sub_path perms_int rest count s
      | Returned True \<Rightarrow>
         (case upload_file env fs_obj (basename fs_obj) remote_base sub_path perms_int s of
            (Some e, s') \<Rightarrow> (Some e, count, s')
          | (None, s') \<Rightarrow>
              upload_matches env remote_base force_update last_update sub_path perms_int rest
                (count + 1) s'))"

text \<open>The outer loop (line 78) over the manifest.\<close>

fun walk_manifest ::
  "env \<Rightarrow> string \<Rightarrow> string \<Rightarrow> bool \<Rightarrow> real \<Rightarrow> (string \<times> string \<times> int) list \<Rightarrow> int \<Rightarrow> state
     \<Rightarrow> error option \<times> int \<times> state" where
  "walk_manifest env source_path remote_base force_update last_update [] count s = (None, count, s)"
| "walk_manifest env source_path remote_base force_update last_update
     ((sub_path, file_spec, perms_int) # entries) count s =
     (case upload_matches env remote_base force_update last_update sub_path perms_int
             (glob env (path_join source_path [sub_path, file_spec])) count s of
        (Some e, count', s') \<Rightarrow> (Some e, count', s')
      | (None, count', s') \<Rightarrow>
          walk_manifest env source_path remote_base force_update last_update entries count' s')"

text \<open>Lines 68 to 72: the cutoff is the marker's modification time, or 0 without a marker.\<close>

definition last_update_date_time :: "state \<Rightarrow> real" where
  "last_update_date_time s = (case marker s of Some t \<Rightarrow> t | None \<Rightarrow> 0)"

text \<open>
  The result is the count that line 93 reports, or how the run ended early. Leaving the
  \<open>with\<close> block closes the session; nothing below depends on it.
\<close>

definition check_and_upload_files ::
  "env \<Rightarrow> string \<Rightarrow> string \<Rightarrow> bool \<Rightarrow> state \<Rightarrow> (error + int) \<times> state" where
  "check_and_upload_files env source_path remote_base force_update s =
     (case utc_isoformat env (last_update_date_time s) of
        Raised x \<Rightarrow> (Inl (Uncaught x), s)
      | Returned stamp \<Rightarrow>
         (let s1 = logmsg INFO (''Last update date/time='' @ stamp) s;
              s2 = s1\<lparr>connects := connects s1 + 1\<rparr> in
          case connect env of
            Raised x \<Rightarrow> (Inl (Uncaught x), s2)
          | Returned _ \<Rightarrow>
             (let s3 = logmsg DEBUG (''Logged into '' @ quoted (server_name env)) s2 in
              case walk_manifest env source_path remote_base force_update
                     (last_update_date_time s) SUB_PATHS 0 s3 of
                (Some e, count, s4) \<Rightarrow> (Inl e, s4)
              | (None, count, s4) \<Rightarrow>
                 (let s5 = logmsg INFO (''Uploaded '' @ str_int count @ '' files.'') s4 in
                  if count > 0 then
                    (case touch env of
                       Raised x \<Rightarrow> (Inl (Uncaught x), s5)
                     | Returned t \<Rightarrow> (Inr count, s5\<lparr>marker := Some t\<rparr>))
                  else (Inr count, s5)))))"

section \<open>\<open>handle_options\<close> and \<open>main\<close>\<close>





section \<open>What the claims speak of\<close>


text \<open>The candidates of a walk, in the order the two loops meet them.\<close>

definition candidates :: "env \<Rightarrow> string \<Rightarrow> (string \<times> string \<times> int) list \<Rightarrow> string list" where
  "candidates env source_path entries =
     concat (map (\<lambda>(sub_path, file_spec, perms_int).
                    glob env (path_join source_path [sub_path, file_spec])) entries)"

text \<open>
  Qualification in the words of the specification: the flag is set, or the modification
  time is strictly greater than the cutoff.
\<close>

definition qualifying :: "env \<Rightarrow> bool \<Rightarrow> real \<Rightarrow> string list \<Rightarrow> string list" where
  "qualifying env force_update cutoff fs =
     filter (\<lambda>f. force_update \<or>
                 (case getmtime env f of Returned m \<Rightarrow> cutoff < m | Raised x \<Rightarrow> False)) fs"

section \<open>Invariants of a walk\<close>

text \<open>Every store command of \<open>tr\<close> names the basename of a path of \<open>xs\<close>.\<close>

definition stor_inv :: "ftp_trace \<Rightarrow> string list \<Rightarrow> bool" where
  "stor_inv tr xs \<longleftrightarrow>
     (\<forall>cmd p out. (Storbinary cmd p, out) \<in> set tr \<longrightarrow>
        cmd = ''STOR '' @ basename p \<and> p \<in> set xs)"

text \<open>
  What holds between the state before and the state after any part of a walk that
  called \<open>upload_file\<close> with the paths \<open>xs\<close>.
\<close>

definition run_inv :: "state \<Rightarrow> state \<Rightarrow> string list \<Rightarrow> bool" where
  "run_inv s s' xs \<longleftrightarrow>
     marker s' = marker s \<and> connects s' = connects s \<and> attempted s' = attempted s @ xs \<and>
     (\<exists>tr. trace s' = trace s @ tr \<and>
        (\<forall>cmd p out. (Storbinary cmd p, out) \<in> set tr \<longrightarrow>
            cmd = ''STOR '' @ basename p \<and> p \<in> set xs))"

section \<open>Concrete runs\<close>

text \<open>
  A site in \<open>out\<close> whose only matches are those of \<open>out/*.html\<close>, and three servers:
  one that accepts everything, one that refuses to store \<open>a.html\<close>, and one whose
  connection breaks while \<open>a.html\<close> is stored, so that every later call fails too.
\<close>

definition server_ok :: "ftp_trace \<Rightarrow> ftp_call \<Rightarrow> string outcome" where
  "server_ok tr c =
     (case c of
        Cwd d \<Rightarrow> Returned ''250 OK''
      | Storbinary cmd p \<Rightarrow> Returned ''226 Transfer complete.''
      | Sendcmd cmd \<Rightarrow> Returned ''200 SITE CHMOD command successful'')"

definition server_rejects_a :: "ftp_trace \<Rightarrow> ftp_call \<Rightarrow> string outcome" where
  "server_rejects_a tr c =
     (case c of
        Storbinary cmd p \<Rightarrow>
          if p = ''out/a.html'' then Raised (In_all_errors ''553 Could not create file.'')
          else Returned ''226 Transfer complete.''
      | _ \<Rightarrow> server_ok tr c)"

definition server_drops :: "ftp_trace \<Rightarrow> ftp_call \<Rightarrow> string outcome" where
  "server_drops tr c =
     (if list_ex (\<lambda>(c', r). case r of Raised x \<Rightarrow> True | Returned v \<Rightarrow> False) tr
      then Raised (In_all_errors ''[Errno 32] Broken pipe'')
      else case c of
             Storbinary cmd p \<Rightarrow>
               if p = ''out/a.html'' then Raised (In_all_errors ''[Errno 104] Connection reset by peer'')
               else Returned ''226 Transfer complete.''
           | _ \<Rightarrow> server_ok tr c)"

definition demo_env ::
  "string list \<Rightarrow> (string \<Rightarrow> real) \<Rightarrow> (ftp_trace \<Rightarrow> ftp_call \<Rightarrow> string outcome) \<Rightarrow> env" where
  "demo_env files mtimes server =
     \<lparr>server_name = ''ftp.example.org'',
      utc_isoformat = (\<lambda>t. Returned (if t = 50 then ''1970-01-01T00:00:50''
                                     else ''1970-01-01T00:00:00'')),
      connect = Returned (),
      glob = (\<lambda>p. if p = ''out/*.html'' then files else []),
      getmtime = (\<lambda>p. Returned (mtimes p)),
      open_rb = (\<lambda>p. Returned ()),
      respond = server,
      touch = Returned 1000,
      start_time = 900\<rparr>"

definition ab_mtimes :: "string \<Rightarrow> real" where
  "ab_mtimes p = (if p = ''out/a.html'' then 100 else 200)"


definition fresh :: "real option \<Rightarrow> state" where
  "fresh m = \<lparr>marker = m, connects = 0, trace = [], logged = [], attempted = []\<rparr>"

lemmas run_defs =
  check_and_upload_files_def last_update_date_time_def SUB_PATHS_def path_join_def
  join_step_def startswith_def logmsg_def upload_file_def upload_try_def cwd_base_def
  ftp_do_def qualifies_def basename_def quoted_def str_int_def Let_def
  demo_env_def fresh_def ab_mtimes_def server_ok_def server_rejects_a_def
  candidates_def qualifying_def

section \<open>One call, one step\<close>

lemma upload_try_frame:
  assumes "upload_try env lp fn rp perms s = (r, s')"
  shows "marker s' = marker s" and "connects s' = connects s" and "attempted s' = attempted s"
  using assms
  by (auto simp: upload_try_def ftp_do_def logmsg_def Let_def
           split: outcome.splits prod.splits if_splits)

lemma upload_try_trace:
  assumes "upload_try env lp fn rp perms s = (r, s')"
  shows "\<exists>tr. trace s' = trace s @ tr \<and>
           (\<forall>cmd p out. (Storbinary cmd p, out) \<in> set tr \<longrightarrow> cmd = ''STOR '' @ fn \<and> p = lp)"
  using assms
  by (auto simp: upload_try_def ftp_do_def logmsg_def Let_def
           split: outcome.splits prod.splits if_splits)

lemma upload_try_extends:
  assumes "upload_try env lp fn rp perms s = (r, s')"
  shows "\<exists>tr. trace s' = trace s @ tr"
  using upload_try_trace[OF assms] by blast

lemma upload_try_raised:
  assumes "upload_try env lp fn rp perms s = (Some x, s')"
  shows "trace s' = trace s \<or> (\<exists>tr c. trace s' = trace s @ tr @ [(c, Raised x)])"
  using assms
  by (auto simp: upload_try_def ftp_do_def logmsg_def Let_def
           split: outcome.splits prod.splits if_splits)

lemma cwd_base_frame:
  assumes "cwd_base env rb s = (r, s')"
  shows "marker s' = marker s" and "connects s' = connects s" and "attempted s' = attempted s"
    and "\<exists>out. trace s' = trace s @ [(Cwd (path_join ''/'' [rb]), out)] \<and>
               (r = None \<longleftrightarrow> (\<exists>x. out = Returned x))"
  using assms
  by (auto simp: cwd_base_def ftp_do_def Let_def split: outcome.splits prod.splits)

lemma upload_file_cases:
  assumes "upload_file env lp fn rb sub perms s = (r, s')"
  obtains (escapes) e s1 where
      "upload_try env lp fn (path_join ''/'' [rb, sub]) perms
         (s\<lparr>attempted := attempted s @ [lp]\<rparr>) = (Some (Not_in_all_errors e), s1)"
      "r = Some (Uncaught (Not_in_all_errors e))" "s' = s1"
  | (caught) e s1 where
      "upload_try env lp fn (path_join ''/'' [rb, sub]) perms
         (s\<lparr>attempted := attempted s @ [lp]\<rparr>) = (Some (In_all_errors e), s1)"
      "cwd_base env rb (logmsg ERROR (''FTP Error: '' @ quoted e) s1) = (r, s')"
  | (quiet) s1 where
      "upload_try env lp fn (path_join ''/'' [rb, sub]) perms
         (s\<lparr>attempted := attempted s @ [lp]\<rparr>) = (None, s1)"
      "cwd_base env rb s1 = (r, s')"
  using assms
  by (auto simp: upload_file_def Let_def split: prod.splits option.splits exn.splits)

lemma upload_file_frame:
  assumes "upload_file env lp fn rb sub perms s = (r, s')"
  shows "marker s' = marker s \<and> connects s' = connects s \<and> attempted s' = attempted s @ [lp]"
  using assms
proof (cases rule: upload_file_cases)
  case (escapes e s1)
  from upload_try_frame[OF escapes(1)] escapes(3) show ?thesis by simp
next
  case (caught e s1)
  from upload_try_frame[OF caught(1)] cwd_base_frame(1,2,3)[OF caught(2)]
  show ?thesis by (simp add: logmsg_def)
next
  case (quiet s1)
  from upload_try_frame[OF quiet(1)] cwd_base_frame(1,2,3)[OF quiet(2)]
  show ?thesis by simp
qed

lemma upload_file_last:
  assumes "upload_file env lp fn rb sub perms s = (r, s')"
  shows "r = None \<longleftrightarrow>
         (\<exists>tr x. trace s' = trace s @ tr @ [(Cwd (path_join ''/'' [rb]), Returned x)])"
  using assms
proof (cases rule: upload_file_cases)
  case (escapes e s1)
  from upload_try_raised[OF escapes(1)] escapes(2,3)
  show ?thesis by auto
next
  case (caught e s1)
  from cwd_base_frame(4)[OF caught(2)] upload_try_extends[OF caught(1)]
  show ?thesis by (auto simp: logmsg_def)
next
  case (quiet s1)
  from cwd_base_frame(4)[OF quiet(2)] upload_try_extends[OF quiet(1)]
  show ?thesis by auto
qed

lemma upload_file_trace:
  assumes "upload_file env lp fn rb sub perms s = (r, s')"
  shows "\<exists>tr. trace s' = trace s @ tr \<and>
           (\<forall>cmd p out. (Storbinary cmd p, out) \<in> set tr \<longrightarrow> cmd = ''STOR '' @ fn \<and> p = lp)"
  using assms
proof (cases rule: upload_file_cases)
  case (escapes e s1)
  from upload_try_trace[OF escapes(1)] escapes(3) show ?thesis by simp
next
  case (caught e s1)
  from upload_try_trace[OF caught(1)] cwd_base_frame(4)[OF caught(2)]
  show ?thesis by (auto simp: logmsg_def)
next
  case (quiet s1)
  from upload_try_trace[OF quiet(1)] cwd_base_frame(4)[OF quiet(2)]
  show ?thesis by auto
qed

section \<open>The loops\<close>

lemma run_inv_refl: "run_inv s s []"
  by (simp add: run_inv_def)

lemma run_inv_trans:
  "run_inv s s1 xs \<Longrightarrow> run_inv s1 s2 ys \<Longrightarrow> run_inv s s2 (xs @ ys)"
  unfolding run_inv_def by (elim conjE exE) (simp, blast)

lemma upload_file_inv:
  assumes "upload_file env lp (basename lp) rb sub perms s = (r, s')"
  shows "run_inv s s' [lp]"
  using upload_file_frame[OF assms] upload_file_trace[OF assms]
  unfolding run_inv_def by auto

lemma qualifies_True:
  "qualifies env force cutoff f = Returned True \<longleftrightarrow>
     force \<or> (case getmtime env f of Returned m \<Rightarrow> cutoff < m | Raised x \<Rightarrow> False)"
  by (simp add: qualifies_def split: outcome.splits)

lemma qualifying_Cons:
  "qualifying env force cutoff (f # fs) =
     (if qualifies env force cutoff f = Returned True then f # qualifying env force cutoff fs
      else qualifying env force cutoff fs)"
  by (simp add: qualifying_def qualifies_True)

lemma qualifying_append:
  "qualifying env force cutoff (fs @ gs) =
     qualifying env force cutoff fs @ qualifying env force cutoff gs"
  by (simp add: qualifying_def)

lemma upload_matches_run:
  assumes "upload_matches env rb force cutoff sub perms fs count s = (r, count', s')"
  shows "\<exists>xs. run_inv s s' xs \<and> prefix xs (qualifying env force cutoff fs) \<and>
           (r = None \<longrightarrow> xs = qualifying env force cutoff fs \<and>
                          count' = count + int (length xs))"
  using assms
proof (induction fs arbitrary: count s)
  case Nil
  then show ?case by (auto simp: qualifying_def run_inv_refl)
next
  case (Cons f fs)
  show ?case
  proof (cases "qualifies env force cutoff f")
    case (Raised x)
    with Cons.prems show ?thesis
      by (intro exI[of _ "[]"]) (auto simp: run_inv_refl)
  next
    case (Returned b)
    show ?thesis
    proof (cases b)
      case False
      with Returned Cons.prems
      have "upload_matches env rb force cutoff sub perms fs count s = (r, count', s')"
        by simp
      from Cons.IH[OF this] False Returned show ?thesis
        by (auto simp: qualifying_Cons)
    next
      case True
      obtain r1 s1 where u: "upload_file env f (basename f) rb sub perms s = (r1, s1)"
        by fastforce
      note inv1 = upload_file_inv[OF u]
      show ?thesis
      proof (cases r1)
        case (Some e)
        with True Returned Cons.prems u have "r = Some e" "s' = s1" by auto
        with inv1 True Returned show ?thesis
          by (intro exI[of _ "[f]"]) (auto simp: qualifying_Cons)
      next
        case None
        with True Returned Cons.prems u
        have "upload_matches env rb force cutoff sub perms fs (count + 1) s1 = (r, count', s')"
          by simp
        from Cons.IH[OF this] obtain xs where
          xs: "run_inv s1 s' xs" "prefix xs (qualifying env force cutoff fs)"
              "r = None \<longrightarrow> xs = qualifying env force cutoff fs \<and>
                  count' = count + 1 + int (length xs)"
          by blast
        from run_inv_trans[OF inv1 xs(1)] xs(2,3) True Returned show ?thesis
          by (intro exI[of _ "f # xs"]) (auto simp: qualifying_Cons)
      qed
    qed
  qed
qed

lemma walk_manifest_run:
  assumes "walk_manifest env sp rb force cutoff entries count s = (r, count', s')"
  shows "\<exists>xs. run_inv s s' xs \<and>
           prefix xs (qualifying env force cutoff (candidates env sp entries)) \<and>
           (r = None \<longrightarrow> xs = qualifying env force cutoff (candidates env sp entries) \<and>
                          count' = count + int (length xs))"
  using assms
proof (induction entries arbitrary: count s)
  case Nil
  then show ?case by (auto simp: qualifying_def candidates_def run_inv_refl)
next
  case (Cons entry entries)
  obtain sub_path file_spec perms_int where entry: "entry = (sub_path, file_spec, perms_int)"
    by (cases entry) auto
  let ?fs = "glob env (path_join sp [sub_path, file_spec])"
  have cand: "candidates env sp (entry # entries) = ?fs @ candidates env sp entries"
    by (simp add: candidates_def entry)
  obtain r1 c1 s1 where
    m: "upload_matches env rb force cutoff sub_path perms_int ?fs count s = (r1, c1, s1)"
    by (metis prod_cases3)
  from upload_matches_run[OF m] obtain xs where
    xs: "run_inv s s1 xs" "prefix xs (qualifying env force cutoff ?fs)"
        "r1 = None \<longrightarrow> xs = qualifying env force cutoff ?fs \<and> c1 = count + int (length xs)"
    by blast
  show ?case
  proof (cases r1)
    case (Some e)
    with Cons.prems m entry have "r = Some e" "s' = s1" by auto
    with xs show ?thesis
      by (intro exI[of _ xs]) (auto simp: cand qualifying_append)
  next
    case None
    with Cons.prems m entry
    have "walk_manifest env sp rb force cutoff entries c1 s1 = (r, count', s')" by simp
    from Cons.IH[OF this] obtain ys where
      ys: "run_inv s1 s' ys" "prefix ys (qualifying env force cutoff (candidates env sp entries))"
          "r = None \<longrightarrow> ys = qualifying env force cutoff (candidates env sp entries) \<and>
                         count' = c1 + int (length ys)"
      by blast
    from run_inv_trans[OF xs(1) ys(1)] xs(3) ys(2,3) None show ?thesis
      by (intro exI[of _ "xs @ ys"]) (auto simp: cand qualifying_append)
  qed
qed


section \<open>A whole run\<close>

lemma check_run:
  assumes "check_and_upload_files env sp rb force s = (res, s')"
  shows "\<exists>xs tr. attempted s' = attempted s @ xs \<and> trace s' = trace s @ tr \<and> stor_inv tr xs \<and>
           prefix xs (qualifying env force (last_update_date_time s) (candidates env sp SUB_PATHS)) \<and>
           (case res of
              Inl e \<Rightarrow> marker s' = marker s
            | Inr n \<Rightarrow>
                xs = qualifying env force (last_update_date_time s) (candidates env sp SUB_PATHS) \<and>
                n = int (length xs) \<and>
                (if 0 < n then \<exists>t. touch env = Returned t \<and> marker s' = Some t
                 else marker s' = marker s))"
proof (cases "utc_isoformat env (last_update_date_time s)")
  case (Raised x)
  with assms have "res = Inl (Uncaught x)" "s' = s"
    by (auto simp: check_and_upload_files_def)
  then show ?thesis
    by (intro exI[of _ "[]"]) (auto simp: stor_inv_def)
next
  case (Returned stamp)
  define s2 where
    "s2 = (logmsg INFO (''Last update date/time='' @ stamp) s)
            \<lparr>connects := connects (logmsg INFO (''Last update date/time='' @ stamp) s) + 1\<rparr>"
  have s2: "marker s2 = marker s" "attempted s2 = attempted s" "trace s2 = trace s"
    by (simp_all add: s2_def logmsg_def)
  note body = assms[unfolded check_and_upload_files_def Let_def Returned outcome.case,
                    folded s2_def]
  show ?thesis
  proof (cases "connect env")
    case (Raised x)
    with body have "res = Inl (Uncaught x)" "s' = s2"
      by auto
    with s2 show ?thesis
      by (intro exI[of _ "[]"]) (auto simp: stor_inv_def)
  next
    case conn: (Returned u)
    define s3 where "s3 = logmsg DEBUG (''Logged into '' @ quoted (server_name env)) s2"
    have s3: "marker s3 = marker s" "attempted s3 = attempted s" "trace s3 = trace s"
      by (simp_all add: s3_def logmsg_def s2)
    obtain r c s4 where
      w: "walk_manifest env sp rb force (last_update_date_time s) SUB_PATHS 0 s3 = (r, c, s4)"
      by (metis prod_cases3)
    from walk_manifest_run[OF w] obtain xs where
      xs: "run_inv s3 s4 xs"
          "prefix xs (qualifying env force (last_update_date_time s) (candidates env sp SUB_PATHS))"
          "r = None \<longrightarrow>
             xs = qualifying env force (last_update_date_time s) (candidates env sp SUB_PATHS) \<and>
             c = int (length xs)"
      by auto
    from xs(1) s3 obtain tr where
      s4: "marker s4 = marker s" "attempted s4 = attempted s @ xs" "trace s4 = trace s @ tr"
          "stor_inv tr xs"
      by (auto simp: run_inv_def stor_inv_def)
    note body' = body[unfolded conn outcome.case, folded s3_def]
    show ?thesis
    proof (cases r)
      case (Some e)
      with body' w have "res = Inl e" "s' = s4" by auto
      with s4 xs(2) show ?thesis by (intro exI[of _ xs] exI[of _ tr]) auto
    next
      case None
      with xs(3)
      have q: "xs = qualifying env force (last_update_date_time s) (candidates env sp SUB_PATHS)"
        and c: "c = int (length xs)" by auto
      define s5 where "s5 = logmsg INFO (''Uploaded '' @ str_int c @ '' files.'') s4"
      have s5: "marker s5 = marker s" "attempted s5 = attempted s @ xs" "trace s5 = trace s @ tr"
        by (simp_all add: s5_def logmsg_def s4)
      note fin = body'[unfolded w None prod.case option.case, folded s5_def]
      show ?thesis
      proof (cases "0 < c")
        case False
        with fin have "res = Inr c" "s' = s5" by auto
        with False s5 s4(4) q c show ?thesis
          by (intro exI[of _ xs] exI[of _ tr]) auto
      next
        case True
        show ?thesis
        proof (cases "touch env")
          case (Raised x)
          with fin True have "res = Inl (Uncaught x)" "s' = s5" by auto
          with s5 s4(4) xs(2) show ?thesis
            by (intro exI[of _ xs] exI[of _ tr]) auto
        next
          case (Returned t)
          with fin True have "res = Inr c" "s' = s5\<lparr>marker := Some t\<rparr>" by auto
          with True Returned s5 s4(4) q c show ?thesis
            by (intro exI[of _ xs] exI[of _ tr]) auto
        qed
      qed
    qed
  qed
qed

section \<open>The claims\<close>



lemma basename_no_slash: "CHR ''/'' \<notin> set (basename p)"
  by (auto simp: basename_def dest: set_takeWhileD)














text \<open>
  C10. Every store command of a run is \<open>STOR\<close> followed by the basename of the local path
  whose contents it sends; the basename holds no slash, and the path is a qualifying
  candidate.
\<close>

theorem stor_names_basename:
  assumes "check_and_upload_files env source_path remote_base force_update s = (res, s')"
  shows "\<exists>tr. trace s' = trace s @ tr \<and>
           (\<forall>cmd p out. (Storbinary cmd p, out) \<in> set tr \<longrightarrow>
              cmd = ''STOR '' @ basename p \<and> CHR ''/'' \<notin> set (basename p) \<and>
              p \<in> set (qualifying env force_update (last_update_date_time s)
                         (candidates env source_path SUB_PATHS)))"
proof -
  from check_run[OF assms] obtain xs tr where
    h: "trace s' = trace s @ tr" "stor_inv tr xs"
       "prefix xs (qualifying env force_update (last_update_date_time s)
                     (candidates env source_path SUB_PATHS))"
    by blast
  from h(3) have "set xs \<subseteq> set (qualifying env force_update (last_update_date_time s)
                     (candidates env source_path SUB_PATHS))"
    by (rule set_mono_prefix)
  with h(1,2) show ?thesis
    unfolding stor_inv_def using basename_no_slash by blast
qed

theorem stor_names_basename_witness:
  "trace (snd (check_and_upload_files
          (demo_env [''out/a.html'', ''out/b.html''] ab_mtimes server_ok)
          ''out'' ''site'' False (fresh (Some 150)))) =
     [(Cwd ''/site/'', Returned ''250 OK''),
      (Storbinary ''STOR b.html'' ''out/b.html'', Returned ''226 Transfer complete.''),
      (Sendcmd ''SITE CHMOD 664 b.html'', Returned ''200 SITE CHMOD command successful''),
      (Cwd ''/site'', Returned ''250 OK'')] \<and>
   basename ''out/b.html'' = ''b.html''"
proof -
  let ?env = "demo_env [''out/a.html'', ''out/b.html''] ab_mtimes server_ok"
  let ?run = "check_and_upload_files ?env ''out'' ''site'' False (fresh (Some 150))"
  have tr: "trace (snd ?run) =
     [(Cwd ''/site/'', Returned ''250 OK''),
      (Storbinary ''STOR b.html'' ''out/b.html'', Returned ''226 Transfer complete.''),
      (Sendcmd ''SITE CHMOD 664 b.html'', Returned ''200 SITE CHMOD command successful''),
      (Cwd ''/site'', Returned ''250 OK'')]"
    by (simp add: run_defs str_nat.simps)
  have "?run = (fst ?run, snd ?run)" by simp
  from stor_names_basename[OF this] tr
  have "''STOR b.html'' = ''STOR '' @ basename ''out/b.html''"
    by (auto simp: fresh_def)
  with tr show ?thesis by simp
qed

text \<open>
  C8. \<open>upload_file\<close> returns to the loop exactly when its last FTP call, the change of
  directory to \<open>os.path.join("/", remote_base)\<close>, returned: whether the transfer was
  acknowledged, refused, or ended in a caught error, the session is back in that directory
  when the loop goes on. The joined path is \<open>/\<close> followed by the remote base, or the
  remote base itself when that already begins with a slash.
\<close>

theorem upload_file_returns_to_base:
  assumes "upload_file env local_path filename remote_base sub_path permissions_int s = (r, s')"
  shows "(r = None \<longleftrightarrow>
           (\<exists>tr x. trace s' =
              trace s @ tr @ [(Cwd (path_join ''/'' [remote_base]), Returned x)])) \<and>
         path_join ''/'' [remote_base] =
           (if startswith remote_base ''/'' then remote_base else ''/'' @ remote_base)"
  using upload_file_last[OF assms] by (simp add: path_join_def join_step_def)

theorem upload_file_returns_to_base_witness:
  "fst (upload_file (demo_env [''out/a.html''] ab_mtimes server_rejects_a)
          ''out/a.html'' ''a.html'' ''site'' '''' 664 (fresh None)) = None \<and>
   trace (snd (upload_file (demo_env [''out/a.html''] ab_mtimes server_rejects_a)
          ''out/a.html'' ''a.html'' ''site'' '''' 664 (fresh None))) =
     [(Cwd ''/site/'', Returned ''250 OK''),
      (Storbinary ''STOR a.html'' ''out/a.html'',
         Raised (In_all_errors ''553 Could not create file.'')),
      (Cwd ''/site'', Returned ''250 OK'')] \<and>
   path_join ''/'' [''site''] = ''/site''"
proof -
  let ?up = "upload_file (demo_env [''out/a.html''] ab_mtimes server_rejects_a)
          ''out/a.html'' ''a.html'' ''site'' '''' 664 (fresh None)"
  have tr: "trace (snd ?up) =
     [(Cwd ''/site/'', Returned ''250 OK''),
      (Storbinary ''STOR a.html'' ''out/a.html'',
         Raised (In_all_errors ''553 Could not create file.'')),
      (Cwd ''/site'', Returned ''250 OK'')]"
    by (simp add: run_defs)
  have p: "path_join ''/'' [''site''] = ''/site''" by (simp add: run_defs)
  have "?up = (fst ?up, snd ?up)" by simp
  from upload_file_returns_to_base[OF this] tr p
  have "fst ?up = None" by (simp add: fresh_def)
  with tr p show ?thesis by simp
qed

text \<open>
  C2, as stated, fails: the change of directory back to the base (line 64) is part of the
  upload of a file and lies outside the \<open>try\<close>. When the connection breaks while
  \<open>a.html\<close> is stored, that error is caught, but the change of directory that follows
  fails as well; its error leaves \<open>upload_file\<close> and ends the run, and the qualifying
  \<open>b.html\<close> is never attempted.
\<close>

theorem closing_cwd_error_aborts_counterexample:
  "qualifying (demo_env [''out/a.html'', ''out/b.html''] ab_mtimes server_drops) False 0
     (candidates (demo_env [''out/a.html'', ''out/b.html''] ab_mtimes server_drops)
        ''out'' SUB_PATHS) = [''out/a.html'', ''out/b.html''] \<and>
   fst (check_and_upload_files
          (demo_env [''out/a.html'', ''out/b.html''] ab_mtimes server_drops)
          ''out'' ''site'' False (fresh None)) =
     Inl (Uncaught (In_all_errors ''[Errno 32] Broken pipe'')) \<and>
   attempted (snd (check_and_upload_files
          (demo_env [''out/a.html'', ''out/b.html''] ab_mtimes server_drops)
          ''out'' ''site'' False (fresh None))) = [''out/a.html'']"
  by (simp add: run_defs server_drops_def str_nat.simps)

text \<open>
  C2, amended. An error of \<open>ftplib.all_errors\<close> that leaves the \<open>try\<close> block (raised
  by opening the file, the change to the target directory, the store or the permission
  change) is caught and logged by \<open>upload_file\<close>; when the change of directory back to
  the base then returns, the loop counts the file and continues with the next candidate.
\<close>

theorem caught_error_continues:
  assumes "qualifies env force_update cutoff fs_obj = Returned True"
    and "upload_try env fs_obj (basename fs_obj) (path_join ''/'' [remote_base, sub_path])
           perms_int (s\<lparr>attempted := attempted s @ [fs_obj]\<rparr>) = (Some (In_all_errors e), s1)"
    and "respond env (trace s1) (Cwd (path_join ''/'' [remote_base])) = Returned r"
  shows "upload_matches env remote_base force_update cutoff sub_path perms_int
           (fs_obj # rest) count s =
         upload_matches env remote_base force_update cutoff sub_path perms_int rest (count + 1)
           ((logmsg ERROR (''FTP Error: '' @ quoted e) s1)
              \<lparr>trace := trace s1 @ [(Cwd (path_join ''/'' [remote_base]), Returned r)]\<rparr>)"
proof -
  from assms(2,3)
  have "upload_file env fs_obj (basename fs_obj) remote_base sub_path perms_int s =
          (None, (logmsg ERROR (''FTP Error: '' @ quoted e) s1)
              \<lparr>trace := trace s1 @ [(Cwd (path_join ''/'' [remote_base]), Returned r)]\<rparr>)"
    by (simp add: upload_file_def cwd_base_def ftp_do_def logmsg_def Let_def)
  with assms(1) show ?thesis by simp
qed

theorem caught_error_continues_witness:
  "qualifies (demo_env [''out/a.html'', ''out/b.html''] ab_mtimes server_rejects_a) False 0
     ''out/a.html'' = Returned True \<and>
   fst (upload_try (demo_env [''out/a.html'', ''out/b.html''] ab_mtimes server_rejects_a)
          ''out/a.html'' ''a.html'' ''/site/'' 664
          ((fresh None)\<lparr>attempted := [''out/a.html'']\<rparr>)) =
     Some (In_all_errors ''553 Could not create file.'') \<and>
   upload_matches (demo_env [''out/a.html'', ''out/b.html''] ab_mtimes server_rejects_a)
      ''site'' False 0 '''' 664 [''out/a.html'', ''out/b.html''] 0 (fresh None) =
   upload_matches (demo_env [''out/a.html'', ''out/b.html''] ab_mtimes server_rejects_a)
      ''site'' False 0 '''' 664 [''out/b.html''] 1
      (snd (upload_file (demo_env [''out/a.html'', ''out/b.html''] ab_mtimes server_rejects_a)
              ''out/a.html'' ''a.html'' ''site'' '''' 664 (fresh None)))"
proof -
  let ?env = "demo_env [''out/a.html'', ''out/b.html''] ab_mtimes server_rejects_a"
  let ?s0 = "(fresh None)\<lparr>attempted := attempted (fresh None) @ [''out/a.html'']\<rparr>"
  let ?blk = "upload_try ?env ''out/a.html'' (basename ''out/a.html'')
                (path_join ''/'' [''site'', '''']) 664 ?s0"
  have q: "qualifies ?env False 0 ''out/a.html'' = Returned True"
    by (simp add: run_defs)
  have t: "?blk = (Some (In_all_errors ''553 Could not create file.''), snd ?blk)"
    by (simp add: run_defs prod_eq_iff)
  have c: "respond ?env (trace (snd ?blk)) (Cwd (path_join ''/'' [''site''])) = Returned ''250 OK''"
    by (simp add: run_defs)
  note step = caught_error_continues[OF q t c, of "[''out/b.html'']" 0]
  have u: "snd (upload_file ?env ''out/a.html'' ''a.html'' ''site'' '''' 664 (fresh None)) =
       (logmsg ERROR (''FTP Error: '' @ quoted ''553 Could not create file.'') (snd ?blk))
          \<lparr>trace := trace (snd ?blk) @ [(Cwd (path_join ''/'' [''site'']), Returned ''250 OK'')]\<rparr>"
    by (simp add: run_defs)
  have t': "fst (upload_try ?env ''out/a.html'' ''a.html'' ''/site/'' 664
          ((fresh None)\<lparr>attempted := [''out/a.html'']\<rparr>)) =
     Some (In_all_errors ''553 Could not create file.'')"
    by (simp add: run_defs)
  from q t' step u show ?thesis by simp
qed



section \<open>Runs that complete\<close>










end
